theory Spec2Isabelle
  imports Main
begin

section \<open>The catalog of the Vatican scraper\<close>

text \<open>
  A shallow embedding of \<^verbatim>\<open>src/scraper/vatican_scraper.py\<close> (class
  \<^verbatim>\<open>VaticanScraper\<close>). Python dictionaries with a fixed set of keys are
  records. A key that the code itself reads with \<^verbatim>\<open>.get\<close> or tests with
  \<^verbatim>\<open>in\<close> may be absent and is an \<open>option\<close>; a key it reads with
  \<^verbatim>\<open>[...]\<close> is always there. Strings are character lists, the empty
  string is \<open>[]\<close>. A timestamp (\<^verbatim>\<open>datetime.now().isoformat()\<close>)
  is an abstract instant, a natural number.
\<close>

type_synonym timestamp = nat

text \<open>
  One entry of \<^verbatim>\<open>self.documents["documents"]\<close>. The keys are those of
  \<^verbatim>\<open>new_doc\<close> (lines 101-113) and \<^verbatim>\<open>"urls"\<close>, which only the
  update path writes (lines 79-81); the key \<^verbatim>\<open>"type"\<close> is the field
  \<open>doc_type\<close>.
\<close>

record document =
  title :: string
  url :: string
  urls :: "string list option"
  doc_type :: "string option"
  date :: "string option"
  language :: string
  languages :: "string list option"
  description :: "string option"
  read :: bool
  comments :: string
  quotes :: "string list"
  added_date :: timestamp

text \<open>
  The record \<^verbatim>\<open>extract_document_info\<close> returns (lines 250-257), passed on
  as \<^verbatim>\<open>**doc_info\<close>.
\<close>

record doc_info =
  info_title :: string
  info_url :: string
  info_type :: string
  info_date :: string
  info_language :: string
  info_description :: string

subsection \<open>Identity resolution and merge\<close>

text \<open>
  \<^verbatim>\<open>document_exists\<close> (lines 65-70): the first document whose title or
  whose url is the one asked for. Python returns a reference to the dictionary in
  the list; the model returns its position.
\<close>

fun document_exists :: "string \<Rightarrow> string \<Rightarrow> document list \<Rightarrow> nat option" where
  "document_exists t u [] = None"
| "document_exists t u (doc # rest) =
     (if title doc = t \<or> url doc = u then Some 0
      else map_option Suc (document_exists t u rest))"

text \<open>\<^verbatim>\<open>existing.get("urls", [existing["url"]])\<close> (line 78).\<close>

definition known_urls :: "document \<Rightarrow> string list" where
  "known_urls d = (case urls d of None \<Rightarrow> [url d] | Some us \<Rightarrow> us)"

text \<open>\<^verbatim>\<open>existing.get("languages", [])\<close> (line 90).\<close>

definition known_languages :: "document \<Rightarrow> string list" where
  "known_languages d = (case languages d of None \<Rightarrow> [] | Some ls \<Rightarrow> ls)"

text \<open>
  Python truth of \<^verbatim>\<open>existing.get(key)\<close> for a string-valued key: false
  when the key is absent (\<^verbatim>\<open>None\<close>) or holds the empty string.
\<close>

definition truthy :: "string option \<Rightarrow> bool" where
  "truthy v = (case v of None \<Rightarrow> False | Some s \<Rightarrow> s \<noteq> [])"

text \<open>
  Lines 78-83. When \<^verbatim>\<open>"urls"\<close> is absent it is first set to
  \<^verbatim>\<open>[existing["url"]]\<close>, then the new url is appended and becomes the
  primary one.
\<close>

definition merge_url :: "string \<Rightarrow> document \<Rightarrow> document" where
  "merge_url u existing =
     (if u \<notin> set (known_urls existing)
      then existing\<lparr>urls := Some (known_urls existing @ [u]), url := u\<rparr>
      else existing)"

text \<open>Lines 86-87.\<close>

definition merge_type :: "string \<Rightarrow> document \<Rightarrow> document" where
  "merge_type ty existing =
     (if ty \<noteq> [] \<and> \<not> truthy (doc_type existing)
      then existing\<lparr>doc_type := Some ty\<rparr> else existing)"

text \<open>Lines 88-89.\<close>

definition merge_date :: "string \<Rightarrow> document \<Rightarrow> document" where
  "merge_date da existing =
     (if da \<noteq> [] \<and> \<not> truthy (date existing)
      then existing\<lparr>date := Some da\<rparr> else existing)"

text \<open>Lines 90-94.\<close>

definition merge_language :: "string \<Rightarrow> document \<Rightarrow> document" where
  "merge_language la existing =
     (if la \<noteq> [] \<and> la \<notin> set (known_languages existing)
      then (case languages existing of
              None \<Rightarrow> existing\<lparr>languages := Some [la]\<rparr>
            | Some ls \<Rightarrow> existing\<lparr>languages := Some (ls @ [la])\<rparr>)
      else existing)"

text \<open>Lines 95-96.\<close>

definition merge_description :: "string \<Rightarrow> document \<Rightarrow> document" where
  "merge_description de existing =
     (if de \<noteq> [] \<and> \<not> truthy (description existing)
      then existing\<lparr>description := Some de\<rparr> else existing)"

text \<open>The branch \<^verbatim>\<open>if existing:\<close> (lines 76-98), statement by statement.\<close>

definition update_existing ::
  "string \<Rightarrow> string \<Rightarrow> string \<Rightarrow> string \<Rightarrow> string \<Rightarrow> document \<Rightarrow> document" where
  "update_existing u ty da la de existing =
     merge_description de (merge_language la (merge_date da (merge_type ty
       (merge_url u existing))))"

text \<open>
  The branch \<^verbatim>\<open>else:\<close> (lines 100-113). The new dictionary has no key
  \<^verbatim>\<open>"urls"\<close>.
\<close>

definition new_doc ::
  "timestamp \<Rightarrow> string \<Rightarrow> string \<Rightarrow> string \<Rightarrow> string \<Rightarrow> string \<Rightarrow> string \<Rightarrow> document" where
  "new_doc now t u ty da la de =
     \<lparr>title = t, url = u, urls = None, doc_type = Some ty, date = Some da,
      language = la, languages = Some (if la \<noteq> [] then [la] else []),
      description = Some de, read = False, comments = [], quotes = [],
      added_date = now\<rparr>"

text \<open>
  \<^verbatim>\<open>add_or_update_document\<close> (lines 72-117) on the list
  \<^verbatim>\<open>self.documents["documents"]\<close>: the updated list and the position of the
  document returned. \<open>now\<close> is what \<^verbatim>\<open>datetime.now()\<close> reads.
\<close>

definition add_or_update_document ::
  "timestamp \<Rightarrow> string \<Rightarrow> string \<Rightarrow> string \<Rightarrow> string \<Rightarrow> string \<Rightarrow> string \<Rightarrow>
     document list \<Rightarrow> document list \<times> nat" where
  "add_or_update_document now t u ty da la de ds =
     (case document_exists t u ds of
        Some i \<Rightarrow> (ds[i := update_existing u ty da la de (ds ! i)], i)
      | None \<Rightarrow> (ds @ [new_doc now t u ty da la de], length ds))"

text \<open>
  The call \<^verbatim>\<open>self.add_or_update_document(**doc_info)\<close> (lines 278, 281) and
  its effect on the list.
\<close>

definition upsert :: "timestamp \<Rightarrow> doc_info \<Rightarrow> document list \<Rightarrow> document list" where
  "upsert now r ds =
     fst (add_or_update_document now (info_title r) (info_url r) (info_type r)
            (info_date r) (info_language r) (info_description r) ds)"

text \<open>A sequence of such calls, each with the instant at which it is made.\<close>

fun upserts :: "(timestamp \<times> doc_info) list \<Rightarrow> document list \<Rightarrow> document list" where
  "upserts [] ds = ds"
| "upserts ((now, r) # cs) ds = upserts cs (upsert now r ds)"

section \<open>Strings\<close>

text \<open>
  The string operations of Python that the extractor uses, on texts of ASCII
  characters.
\<close>

text \<open>
  \<^verbatim>\<open>str.isspace\<close> on one character, which is also the class \<^verbatim>\<open>\s\<close> of
  \<^verbatim>\<open>re\<close>: the codes 9 to 13 and 28 to 32.
\<close>

definition isspace :: "char \<Rightarrow> bool" where
  "isspace c = ((9 \<le> (of_char c :: nat) \<and> (of_char c :: nat) \<le> 13) \<or>
                (28 \<le> (of_char c :: nat) \<and> (of_char c :: nat) \<le> 32))"

text \<open>\<^verbatim>\<open>s.strip()\<close>.\<close>

definition str_strip :: "string \<Rightarrow> string" where
  "str_strip s = rev (dropWhile isspace (rev (dropWhile isspace s)))"

text \<open>
  \<^verbatim>\<open>re.sub(r'\s+', ' ', s)\<close>: every maximal run of whitespace becomes one
  space. The flag says that the character before was whitespace.
\<close>

fun sub_spaces :: "bool \<Rightarrow> string \<Rightarrow> string" where
  "sub_spaces in_run [] = []"
| "sub_spaces in_run (c # cs) =
     (if isspace c then (if in_run then sub_spaces True cs else CHR '' '' # sub_spaces True cs)
      else c # sub_spaces False cs)"

definition re_sub_spaces :: "string \<Rightarrow> string" where
  "re_sub_spaces s = sub_spaces False s"

text \<open>\<^verbatim>\<open>sub in s\<close> for strings.\<close>

fun str_contains :: "string \<Rightarrow> string \<Rightarrow> bool" where
  "str_contains sub [] = (sub = [])"
| "str_contains sub (c # cs) = (take (length sub) (c # cs) = sub \<or> str_contains sub cs)"

text \<open>\<^verbatim>\<open>s.endswith(suffix)\<close>.\<close>

definition str_endswith :: "string \<Rightarrow> string \<Rightarrow> bool" where
  "str_endswith s suffix =
     (length suffix \<le> length s \<and> drop (length s - length suffix) s = suffix)"

text \<open>\<^verbatim>\<open>s.split(sep)\<close> for a separator of one character; the result is never empty.\<close>

fun str_split :: "char \<Rightarrow> string \<Rightarrow> string list" where
  "str_split sep [] = [[]]"
| "str_split sep (c # cs) =
     (if c = sep then [] # str_split sep cs
      else (case str_split sep cs of
              [] \<Rightarrow> [[c]]
            | w # ws \<Rightarrow> (c # w) # ws))"

text \<open>
  \<^verbatim>\<open>s.replace(old, new)\<close> for a non-empty \<^verbatim>\<open>old\<close> (the source replaces
  \<^verbatim>\<open>'.html'\<close> and \<^verbatim>\<open>'-'\<close>): the occurrences from left to right, without
  overlap.
\<close>

function str_replace :: "string \<Rightarrow> string \<Rightarrow> string \<Rightarrow> string" where
  "str_replace old new [] = []"
| "str_replace old new (c # cs) =
     (if old \<noteq> [] \<and> take (length old) (c # cs) = old
      then new @ str_replace old new (drop (length old) (c # cs))
      else c # str_replace old new cs)"
  by pat_completeness auto
termination
  by (relation "measure (\<lambda>(old, new, s). length s)") (auto simp: neq_Nil_conv)

text \<open>
  \<^verbatim>\<open>s.title()\<close> on ASCII text: a letter is made upper case when the character
  before it is not a letter, lower case when it is. The flag says that the
  character before was a letter.
\<close>

definition islower :: "char \<Rightarrow> bool" where
  "islower c = (97 \<le> (of_char c :: nat) \<and> (of_char c :: nat) \<le> 122)"

definition isupper :: "char \<Rightarrow> bool" where
  "isupper c = (65 \<le> (of_char c :: nat) \<and> (of_char c :: nat) \<le> 90)"

definition toupper :: "char \<Rightarrow> char" where
  "toupper c = (if islower c then char_of ((of_char c :: nat) - 32) else c)"

definition tolower :: "char \<Rightarrow> char" where
  "tolower c = (if isupper c then char_of ((of_char c :: nat) + 32) else c)"

fun title_case :: "bool \<Rightarrow> string \<Rightarrow> string" where
  "title_case previous_is_cased [] = []"
| "title_case previous_is_cased (c # cs) =
     (if islower c
      then (if previous_is_cased then c else toupper c) # title_case True cs
      else if isupper c
      then (if previous_is_cased then tolower c else c) # title_case True cs
      else c # title_case False cs)"

definition str_title :: "string \<Rightarrow> string" where
  "str_title s = title_case False s"

section \<open>The site and the extractor\<close>

text \<open>
  What \<^verbatim>\<open>fetch_page\<close> returns for a page that could be fetched, as far as the
  scraper queries it: for a CSS selector the text of the first element it selects
  (\<^verbatim>\<open>soup.select_one(sel).get_text()\<close>, \<open>None\<close> when no element matches),
  the text of the whole page (\<^verbatim>\<open>soup.get_text()\<close>) and the targets of its
  links (\<^verbatim>\<open>soup.find_all('a', href=True)\<close>).
\<close>

record page =
  select_one :: "string \<Rightarrow> string option"
  get_text :: string
  hrefs :: "string list"

text \<open>
  The three regular expressions of \<^verbatim>\<open>date_patterns\<close> (lines 229-233), in
  their order: \<^verbatim>\<open>15 May 1891\<close>, \<^verbatim>\<open>1891-05-15\<close>, \<^verbatim>\<open>May 15, 1891\<close>.
\<close>

datatype date_pattern = Day_Month_Year | Year_Month_Day | Month_Day_Year

text \<open>
  What lies outside the program. \<open>fetch_page\<close> is the method of that name (lines
  119-128): the parsed page, or \<open>None\<close> after a request error. The other three are
  library functions that are not modelled: \<^verbatim>\<open>urlparse(url).path\<close>,
  \<^verbatim>\<open>re.search(pattern, text)\<close> (the matched text \<^verbatim>\<open>match.group(0)\<close>, or
  \<open>None\<close>) and \<^verbatim>\<open>urljoin(base, href)\<close>.
\<close>

record env =
  fetch_page :: "string \<Rightarrow> page option"
  urlparse_path :: "string \<Rightarrow> string"
  re_search :: "date_pattern \<Rightarrow> string \<Rightarrow> string option"
  urljoin :: "string \<Rightarrow> string \<Rightarrow> string"

subsection \<open>Link discovery\<close>

definition base_url :: string where
  "base_url = ''https://www.vatican.va''"

text \<open>Lines 133-151.\<close>

definition search_urls :: "string list" where
  "search_urls =
     [base_url @ ''/content/leo-xiii/en/encyclicals.index.html'',
      base_url @ ''/content/leo-xiii/la/encyclicals.index.html'',
      base_url @ ''/content/leo-xiii/it/encyclicals.index.html'',
      base_url @ ''/content/leo-xiii/en/letters.index.html'',
      base_url @ ''/content/leo-xiii/la/letters.index.html'',
      base_url @ ''/content/leo-xiii/en/speeches.index.html'',
      base_url @ ''/content/leo-xiii/la/speeches.index.html'',
      base_url @ ''/content/leo-xiii/en.html'',
      base_url @ ''/content/leo-xiii/la.html'',
      base_url @ ''/content/leo-xiii/it.html'']"

text \<open>The filter of lines 170-173, for a link \<open>full_url\<close> found on the page \<open>u\<close>.\<close>

definition is_document_link :: "string \<Rightarrow> string \<Rightarrow> bool" where
  "is_document_link u full_url =
     ((str_contains ''/leo-xiii/'' full_url \<or> str_contains ''/leo_xiii/'' full_url) \<and>
      str_endswith full_url ''.html'' \<and>
      \<not> str_contains ''/index.html'' full_url \<and>
      full_url \<noteq> u)"

text \<open>
  \<^verbatim>\<open>find_pope_leo_pages\<close> (lines 130-176): the set
  \<^verbatim>\<open>all_document_links\<close>. The method returns \<^verbatim>\<open>list(all_document_links)\<close>,
  the elements of the set in an order that Python does not fix.
\<close>

definition find_pope_leo_pages :: "env \<Rightarrow> string set" where
  "find_pope_leo_pages e =
     (\<Union>seed \<in> set search_urls.
        (case fetch_page e seed of
           None \<Rightarrow> {}
         | Some soup \<Rightarrow>
             Set.filter (is_document_link seed) (urljoin e seed ` set (hrefs soup))))"

subsection \<open>Metadata extraction\<close>

text \<open>Lines 186-189.\<close>

definition title_selectors :: "string list" where
  "title_selectors =
     [''h1'', ''h2.doc_title'', ''.doc_title'', ''.title'',
      ''title'', ''h2'', ''.content h1'', ''.content h2'']"

text \<open>
  The loop of lines 191-195: the stripped text of the first selector that selects
  an element with text that is not blank; the empty string when there is none.
\<close>

fun select_title :: "page \<Rightarrow> string list \<Rightarrow> string" where
  "select_title soup [] = []"
| "select_title soup (selector # rest) =
     (case select_one soup selector of
        None \<Rightarrow> select_title soup rest
      | Some text \<Rightarrow>
          if str_strip text \<noteq> [] then str_strip text else select_title soup rest)"

text \<open>Line 198: the title made of the last segment of the url's path.\<close>

definition fallback_title :: "env \<Rightarrow> string \<Rightarrow> string" where
  "fallback_title e u =
     str_title (str_replace ''-'' '' ''
       (str_replace ''.html'' [] (last (str_split CHR ''/'' (urlparse_path e u)))))"

text \<open>Lines 185-201.\<close>

definition extract_title :: "env \<Rightarrow> string \<Rightarrow> page \<Rightarrow> string" where
  "extract_title e u soup =
     (let t = select_title soup title_selectors;
          t = (if t = [] then fallback_title e u else t)
      in str_strip (re_sub_spaces t))"

text \<open>Lines 204-212.\<close>

definition extract_doc_type :: "string \<Rightarrow> string" where
  "extract_doc_type u =
     (if str_contains ''/encyclicals/'' u then ''Encyclical''
      else if str_contains ''/letters/'' u then ''Letter''
      else if str_contains ''/speeches/'' u then ''Speech''
      else if str_contains ''/apost_letters/'' u then ''Apostolic Letter''
      else ''Unknown'')"

text \<open>Lines 215-225.\<close>

definition extract_language :: "string \<Rightarrow> string" where
  "extract_language u =
     (if str_contains ''/en/'' u then ''English''
      else if str_contains ''/it/'' u then ''Italian''
      else if str_contains ''/fr/'' u then ''French''
      else if str_contains ''/de/'' u then ''German''
      else if str_contains ''/es/'' u then ''Spanish''
      else ''Latin'')"

text \<open>The loop of lines 236-240 over \<^verbatim>\<open>date_patterns\<close>.\<close>

fun search_date :: "env \<Rightarrow> date_pattern list \<Rightarrow> string \<Rightarrow> string" where
  "search_date e [] text_content = []"
| "search_date e (pattern # rest) text_content =
     (case re_search e pattern text_content of
        Some match \<Rightarrow> match
      | None \<Rightarrow> search_date e rest text_content)"

text \<open>Lines 243-248.\<close>

definition extract_description :: "page \<Rightarrow> string" where
  "extract_description soup =
     (case select_one soup ''p'' of
        None \<Rightarrow> []
      | Some text \<Rightarrow>
          (let desc_text = str_strip text
           in if length desc_text > 50
              then (if length desc_text > 200 then take 200 desc_text @ ''...''
                    else desc_text)
              else []))"

text \<open>
  \<^verbatim>\<open>extract_document_info\<close> (lines 178-257); \<open>None\<close> when the page could not
  be fetched.
\<close>

definition extract_document_info :: "env \<Rightarrow> string \<Rightarrow> doc_info option" where
  "extract_document_info e u =
     (case fetch_page e u of
        None \<Rightarrow> None
      | Some soup \<Rightarrow>
          Some \<lparr>info_title = extract_title e u soup,
                info_url = u,
                info_type = extract_doc_type u,
                info_date = search_date e [Day_Month_Year, Year_Month_Day, Month_Day_Year]
                              (get_text soup),
                info_language = extract_language u,
                info_description = extract_description soup\<rparr>)"

section \<open>Persistence and the pipeline\<close>

text \<open>
  The dictionary \<^verbatim>\<open>self.documents\<close>: the catalog, with its two keys
  \<^verbatim>\<open>"metadata"\<close> and \<^verbatim>\<open>"documents"\<close> (lines 45-53).
\<close>

record metadata =
  last_updated :: "timestamp option"
  pope :: string
  source :: string
  total_documents :: nat

record catalog =
  metadata :: metadata
  documents :: "document list"

text \<open>Lines 45-53.\<close>

definition default_catalog :: catalog where
  "default_catalog =
     \<lparr>metadata = \<lparr>last_updated = None, pope = ''Leo XIII'', source = ''vatican.va'',
                   total_documents = 0\<rparr>,
      documents = []\<rparr>"

text \<open>The exceptions that loading can meet.\<close>

datatype py_error =
  JSONDecodeError | FileNotFoundError | UnicodeDecodeError | PermissionError | AttributeError

text \<open>
  What \<^verbatim>\<open>json.load\<close> returns for a file that holds JSON: a JSON object, taken
  to have the shape of a catalog, or another JSON value (an array, a string, a
  number, \<^verbatim>\<open>true\<close>, \<^verbatim>\<open>false\<close> or \<^verbatim>\<open>null\<close>).
\<close>

datatype json_value = Object catalog | Not_an_object

text \<open>
  The data file: absent (\<^verbatim>\<open>self.data_file.exists()\<close> is false), or present
  with what \<^verbatim>\<open>open\<close> and \<^verbatim>\<open>json.load\<close> do on it (lines 37-38): they raise
  (\<^verbatim>\<open>JSONDecodeError\<close> for text that is not JSON, \<^verbatim>\<open>UnicodeDecodeError\<close>
  for bytes that are not UTF-8, \<^verbatim>\<open>FileNotFoundError\<close> for a file deleted in
  between, \<^verbatim>\<open>PermissionError\<close> for a file that may not be read), or return
  the value read.
\<close>

datatype file_state = Absent | Present "py_error + json_value"

text \<open>The lines that \<^verbatim>\<open>load_existing_data\<close> prints.\<close>

datatype log_line = Loaded nat | Error_loading py_error | Starting_fresh

text \<open>
  \<^verbatim>\<open>load_existing_data\<close> (lines 33-53): what is printed, and the catalog
  returned or the exception that reaches the caller. The \<^verbatim>\<open>except\<close> clause
  of line 41 catches \<^verbatim>\<open>json.JSONDecodeError\<close> and \<^verbatim>\<open>FileNotFoundError\<close>.
  On a JSON value that is not an object, \<^verbatim>\<open>data.get\<close> (line 39) raises
  \<^verbatim>\<open>AttributeError\<close>.
\<close>

definition load_existing_data :: "file_state \<Rightarrow> log_line list \<times> (py_error + catalog)" where
  "load_existing_data f =
     (case f of
        Absent \<Rightarrow> ([], Inr default_catalog)
      | Present (Inl e) \<Rightarrow>
          if e = JSONDecodeError \<or> e = FileNotFoundError
          then ([Error_loading e, Starting_fresh], Inr default_catalog)
          else ([], Inl e)
      | Present (Inr (Object data)) \<Rightarrow> ([Loaded (length (documents data))], Inr data)
      | Present (Inr Not_an_object) \<Rightarrow> ([], Inl AttributeError))"

text \<open>
  The scraper object: the data file, the catalog in memory, the clock that
  \<^verbatim>\<open>datetime.now()\<close> reads (it advances with every reading), and the
  snapshots written to the data file so far, oldest first.
\<close>

record scraper =
  data_file :: file_state
  self_documents :: catalog
  clock :: timestamp
  saved :: "catalog list"

text \<open>
  \<^verbatim>\<open>__init__\<close> (lines 21-31), for a data file in the state \<open>f\<close> at the instant
  \<open>now\<close>.
\<close>

definition init_scraper :: "file_state \<Rightarrow> timestamp \<Rightarrow> py_error + scraper" where
  "init_scraper f now =
     (case snd (load_existing_data f) of
        Inl e \<Rightarrow> Inl e
      | Inr data \<Rightarrow> Inr \<lparr>data_file = f, self_documents = data, clock = now, saved = []\<rparr>)"

text \<open>
  \<^verbatim>\<open>save_data\<close> (lines 55-63): the metadata are recomputed and the catalog
  replaces the content of the data file. (Writing is taken to succeed.)
\<close>

definition save_data :: "scraper \<Rightarrow> scraper" where
  "save_data s =
     (let c = (self_documents s)\<lparr>metadata := (metadata (self_documents s))
                \<lparr>last_updated := Some (clock s),
                 total_documents := length (documents (self_documents s))\<rparr>\<rparr>
      in s\<lparr>self_documents := c, data_file := Present (Inr (Object c)),
           clock := Suc (clock s), saved := saved s @ [c]\<rparr>)"

text \<open>
  The local variables of \<^verbatim>\<open>scrape_all_documents\<close> (lines 267-269), with the
  scraper they belong to.
\<close>

record run =
  self :: scraper
  processed :: nat
  new_docs :: nat
  updated_docs :: nat

text \<open>
  The call \<^verbatim>\<open>self.add_or_update_document(**doc_info)\<close> on the scraper: the
  list of documents is updated, and time has passed.
\<close>

definition merge_info :: "doc_info \<Rightarrow> scraper \<Rightarrow> scraper" where
  "merge_info doc_info s =
     s\<lparr>self_documents := (self_documents s)
          \<lparr>documents := upsert (clock s) doc_info (documents (self_documents s))\<rparr>,
       clock := Suc (clock s)\<rparr>"

text \<open>One pass of the loop body, lines 272-288.\<close>

definition process_url :: "env \<Rightarrow> string \<Rightarrow> run \<Rightarrow> run" where
  "process_url e u r =
     (let r1 =
        (case extract_document_info e u of
           None \<Rightarrow> r
         | Some doc_info \<Rightarrow>
             (case document_exists (info_title doc_info) (info_url doc_info)
                     (documents (self_documents (self r))) of
                Some existing \<Rightarrow>
                  r\<lparr>self := merge_info doc_info (self r), updated_docs := updated_docs r + 1\<rparr>
              | None \<Rightarrow>
                  r\<lparr>self := merge_info doc_info (self r), new_docs := new_docs r + 1\<rparr>));
          r2 = r1\<lparr>processed := processed r1 + 1\<rparr>
      in if processed r2 mod 10 = 0 then r2\<lparr>self := save_data (self r2)\<rparr> else r2)"

text \<open>The loop \<^verbatim>\<open>for url in document_urls\<close> (line 271).\<close>

fun scrape_loop :: "env \<Rightarrow> string list \<Rightarrow> run \<Rightarrow> run" where
  "scrape_loop e [] r = r"
| "scrape_loop e (u # rest) r = scrape_loop e rest (process_url e u r)"

text \<open>
  \<^verbatim>\<open>scrape_all_documents\<close> (lines 259-297). \<open>document_urls\<close> is the list that
  \<^verbatim>\<open>find_pope_leo_pages\<close> returned: the candidate urls in the order in which
  Python enumerates the set. The result carries the counters that are printed.
\<close>

definition scrape_all_documents :: "env \<Rightarrow> string list \<Rightarrow> scraper \<Rightarrow> run" where
  "scrape_all_documents e document_urls s =
     (let r = scrape_loop e document_urls
                \<lparr>self = s, processed = 0, new_docs = 0, updated_docs = 0\<rparr>
      in r\<lparr>self := save_data (self r)\<rparr>)"

text \<open>
  \<^verbatim>\<open>main\<close> (lines 299-309): one run of the pipeline on a data file in the
  state \<open>f\<close>, started at the instant \<open>now\<close>.
\<close>

definition main :: "env \<Rightarrow> string list \<Rightarrow> file_state \<Rightarrow> timestamp \<Rightarrow> py_error + run" where
  "main e document_urls f now =
     (case init_scraper f now of
        Inl err \<Rightarrow> Inl err
      | Inr s \<Rightarrow> Inr (scrape_all_documents e document_urls s))"

section \<open>Predicates of the claims\<close>

text \<open>A text has no run of whitespace: no two adjacent whitespace characters.\<close>

fun no_space_runs :: "string \<Rightarrow> bool" where
  "no_space_runs (a # b # cs) = (\<not> (isspace a \<and> isspace b) \<and> no_space_runs (b # cs))"
| "no_space_runs cs = True"

text \<open>
  The record \<open>r\<close> is absorbed in the document \<open>d\<close>: \<open>d\<close> has its title, knows its
  url and its language, and has a value wherever \<open>r\<close> has one.
\<close>

definition absorbed :: "doc_info \<Rightarrow> document \<Rightarrow> bool" where
  "absorbed r d =
     (title d = info_title r \<and>
      info_url r \<in> set (known_urls d) \<and>
      (info_type r \<noteq> [] \<longrightarrow> truthy (doc_type d)) \<and>
      (info_date r \<noteq> [] \<longrightarrow> truthy (date d)) \<and>
      (info_language r \<noteq> [] \<longrightarrow> info_language r \<in> set (known_languages d)) \<and>
      (info_description r \<noteq> [] \<longrightarrow> truthy (description d)))"

text \<open>
  The list \<open>ds\<close> is settled for the records \<open>R\<close>: titles are distinct, every
  document has the title and the primary url of one record, and every record is
  absorbed in a document.
\<close>

definition settled :: "doc_info set \<Rightarrow> document list \<Rightarrow> bool" where
  "settled R ds =
     (distinct (map title ds) \<and>
      (\<forall>d \<in> set ds. \<exists>r \<in> R. info_title r = title d \<and> info_url r = url d) \<and>
      (\<forall>r \<in> R. \<exists>d \<in> set ds. absorbed r d))"

text \<open>The records that the extractor returns for the urls of a list.\<close>

definition extracted :: "env \<Rightarrow> string list \<Rightarrow> doc_info set" where
  "extracted e us = {r. \<exists>u \<in> set us. extract_document_info e u = Some r}"

section \<open>Example data\<close>

text \<open>Concrete catalogs and candidate records, used to run the model.\<close>

definition url_en :: string where
  "url_en = ''https://www.vatican.va/content/leo-xiii/en/encyclicals/documents/rerum-novarum.html''"

definition url_la :: string where
  "url_la = ''https://www.vatican.va/content/leo-xiii/la/encyclicals/documents/rerum-novarum.html''"

definition url_it :: string where
  "url_it = ''https://www.vatican.va/content/leo-xiii/it/letters/documents/quod-multum.html''"

definition rerum_en :: doc_info where
  "rerum_en = \<lparr>info_title = ''Rerum Novarum'', info_url = url_en,
     info_type = ''Encyclical'', info_date = ''15 May 1891'',
     info_language = ''English'', info_description = []\<rparr>"

definition rerum_la :: doc_info where
  "rerum_la = \<lparr>info_title = ''Rerum Novarum'', info_url = url_la,
     info_type = ''Letter'', info_date = ''1891-05-15'',
     info_language = ''Latin'', info_description = ''De conditione opificum''\<rparr>"

definition quod_it :: doc_info where
  "quod_it = \<lparr>info_title = ''Quod Multum'', info_url = url_it,
     info_type = ''Letter'', info_date = [],
     info_language = ''Italian'', info_description = []\<rparr>"

text \<open>The title of \<open>rerum_en\<close> at the url of \<open>quod_it\<close>.\<close>

definition rerum_it :: doc_info where
  "rerum_it = rerum_en\<lparr>info_url := url_it\<rparr>"

text \<open>A title no stored document has, at the first url of \<open>Rerum Novarum\<close>.\<close>

definition other_en :: doc_info where
  "other_en = rerum_en\<lparr>info_title := ''Testem Benevolentiae''\<rparr>"

text \<open>
  A stored document as a reader left it: marked read, with a comment and a quote.
\<close>

definition annotated :: document where
  "annotated = (new_doc 1 ''Rerum Novarum'' url_en ''Encyclical'' ''15 May 1891''
      ''English'' [])\<lparr>read := True, comments := ''x'', quotes := [''Rerum novarum semel'']\<rparr>"

text \<open>
  An environment around a given site: the path of a url
  \<^verbatim>\<open>https://www.vatican.va/...\<close> that has no parameters, query or fragment is
  what follows the 22 characters of scheme and host; no date is found in any text;
  a link target that is an absolute path is joined to the host.
\<close>

definition site :: "(string \<Rightarrow> page option) \<Rightarrow> env" where
  "site f = \<lparr>fetch_page = f, urlparse_path = drop 22,
              re_search = (\<lambda>p t. None), urljoin = (\<lambda>b h. base_url @ h)\<rparr>"

text \<open>A page that has one paragraph and no other element the extractor selects.\<close>

definition paragraph_page :: "string \<Rightarrow> page" where
  "paragraph_page t =
     \<lparr>select_one = (\<lambda>sel. if sel = ''p'' then Some t else None), get_text = t, hrefs = []\<rparr>"

text \<open>The scraper constructed when there is no data file, at the instant 0.\<close>

definition fresh_scraper :: scraper where
  "fresh_scraper = \<lparr>data_file = Absent, self_documents = default_catalog, clock = 0, saved = []\<rparr>"

text \<open>\<open>n\<close> different candidate urls.\<close>

definition candidates :: "nat \<Rightarrow> string list" where
  "candidates n =
     map (\<lambda>k. base_url @ ''/content/leo-xiii/la/letters/documents/'' @
                replicate (Suc k) CHR ''x'' @ ''.html'') [0..<n]"

text \<open>
  A candidate url whose last path segment is \<^verbatim>\<open>.html\<close>, the index page that
  links to it, and a page in which no selector of the extractor selects anything.
\<close>

definition url_dot_html :: string where
  "url_dot_html = ''https://www.vatican.va/content/leo-xiii/en/.html''"

definition index_page :: page where
  "index_page = \<lparr>select_one = (\<lambda>sel. None), get_text = [],
                  hrefs = [''/content/leo-xiii/en/.html'']\<rparr>"

definition bare_page :: page where
  "bare_page = \<lparr>select_one = (\<lambda>sel. None), get_text = [], hrefs = []\<rparr>"

definition dot_html_site :: env where
  "dot_html_site =
     site (\<lambda>u. if u = ''https://www.vatican.va/content/leo-xiii/en.html'' then Some index_page
               else if u = url_dot_html then Some bare_page
               else None)"

text \<open>A page whose first heading is padded and broken over two lines.\<close>

definition heading_page :: page where
  "heading_page =
     \<lparr>select_one = (\<lambda>sel. if sel = ''h1''
                       then Some (''  Rerum'' @ [CHR 0x0A, CHR '' '', CHR '' ''] @ ''Novarum '')
                       else None),
      get_text = [], hrefs = []\<rparr>"

text \<open>A page with a first heading and nothing else the extractor selects.\<close>

definition titled_page :: "string \<Rightarrow> page" where
  "titled_page t =
     \<lparr>select_one = (\<lambda>sel. if sel = ''h1'' then Some t else None), get_text = [], hrefs = []\<rparr>"

text \<open>A site with three documents, two of them translations of one another.\<close>

definition leo_site :: env where
  "leo_site =
     site (\<lambda>u. if u = url_en then Some (titled_page ''Rerum Novarum'')
               else if u = url_la then Some (titled_page ''Rerum Novarum'')
               else if u = url_it then Some (titled_page ''Quod Multum'')
               else None)"

text \<open>
  A site before and after a change. Before, the Italian page of \<open>Quod Multum\<close> is
  its only page. After, that page has a longer heading and a Latin page carries
  the old one.
\<close>

definition url_qm :: string where
  "url_qm = ''https://www.vatican.va/content/leo-xiii/la/letters/documents/quod-multum.html''"

definition old_site :: env where
  "old_site = site (\<lambda>u. if u = url_it then Some (titled_page ''Quod Multum'') else None)"

definition new_site :: env where
  "new_site =
     site (\<lambda>u. if u = url_it then Some (titled_page ''Lettera Quod Multum'')
               else if u = url_qm then Some (titled_page ''Quod Multum'')
               else None)"

text \<open>
  Three runs of \<^verbatim>\<open>scrape_all_documents\<close>: one on the old site without a data
  file, then two on the new site, each on the catalog that the run before wrote.
\<close>

definition earlier_run :: run where
  "earlier_run = scrape_all_documents old_site [url_it] fresh_scraper"

definition first_run :: run where
  "first_run = scrape_all_documents new_site [url_it, url_qm]
     \<lparr>data_file = data_file (self earlier_run),
      self_documents = self_documents (self earlier_run), clock = 10, saved = []\<rparr>"

definition second_run :: run where
  "second_run = scrape_all_documents new_site [url_it, url_qm]
     \<lparr>data_file = data_file (self first_run),
      self_documents = self_documents (self first_run), clock = 20, saved = []\<rparr>"

text \<open>
  Two runs on \<open>leo_site\<close>: the first without a data file, the second on the
  catalog that the first wrote, with the candidates in another order.
\<close>

definition leo_first :: run where
  "leo_first = scrape_all_documents leo_site [url_en, url_la, url_it] fresh_scraper"

definition leo_second :: run where
  "leo_second = scrape_all_documents leo_site [url_it, url_en, url_la]
     \<lparr>data_file = data_file (self leo_first),
      self_documents = self_documents (self leo_first), clock = 50, saved = []\<rparr>"

section \<open>Properties of the merge\<close>

lemma document_exists_Some:
  "document_exists t u ds = Some i \<Longrightarrow>
     i < length ds \<and> (title (ds ! i) = t \<or> url (ds ! i) = u)"
proof (induction ds arbitrary: i)
  case Nil
  then show ?case by simp
next
  case (Cons d ds)
  show ?case
  proof (cases "title d = t \<or> url d = u")
    case True
    with Cons.prems show ?thesis by auto
  next
    case False
    with Cons.prems obtain j where j: "document_exists t u ds = Some j" "i = Suc j"
      by auto
    from Cons.IH [OF j(1)] j(2) show ?thesis by simp
  qed
qed

lemma document_exists_None:
  "document_exists t u ds = None \<longleftrightarrow> (\<forall>d \<in> set ds. title d \<noteq> t \<and> url d \<noteq> u)"
  by (induction ds) auto

lemma update_existing_user_fields:
  "read (update_existing u ty da la de d) = read d"
  "comments (update_existing u ty da la de d) = comments d"
  "quotes (update_existing u ty da la de d) = quotes d"
  by (simp_all add: update_existing_def merge_description_def merge_language_def
      merge_date_def merge_type_def merge_url_def split: option.split)

lemma update_existing_title:
  "title (update_existing u ty da la de d) = title d"
  by (simp add: update_existing_def merge_description_def merge_language_def
      merge_date_def merge_type_def merge_url_def split: option.split)

lemma length_upsert: "length ds \<le> length (upsert now r ds)"
  by (simp add: upsert_def add_or_update_document_def split: option.split)

lemma upsert_nth_cases:
  assumes "i < length ds"
  shows "upsert now r ds ! i = ds ! i \<or>
         upsert now r ds ! i =
           update_existing (info_url r) (info_type r) (info_date r) (info_language r)
             (info_description r) (ds ! i)"
proof (cases "document_exists (info_title r) (info_url r) ds")
  case None
  with assms show ?thesis
    by (simp add: upsert_def add_or_update_document_def nth_append)
next
  case (Some j)
  with assms show ?thesis
    by (cases "i = j") (simp_all add: upsert_def add_or_update_document_def)
qed

lemma upsert_user_fields:
  assumes "i < length ds"
  shows "read (upsert now r ds ! i) = read (ds ! i) \<and>
         comments (upsert now r ds ! i) = comments (ds ! i) \<and>
         quotes (upsert now r ds ! i) = quotes (ds ! i)"
  using upsert_nth_cases [OF assms, of now r]
  by (auto simp: update_existing_user_fields)

text \<open>
  C1. A document already in the catalog keeps its user-owned fields
  \<^verbatim>\<open>read\<close>, \<^verbatim>\<open>comments\<close> and \<^verbatim>\<open>quotes\<close> through every
  sequence of \<^verbatim>\<open>add_or_update_document\<close> calls: it stays at its position
  in the list, and the three fields there are what they were.
\<close>

theorem user_fields_never_written:
  assumes "i < length ds"
  shows "i < length (upserts cs ds) \<and>
         read (upserts cs ds ! i) = read (ds ! i) \<and>
         comments (upserts cs ds ! i) = comments (ds ! i) \<and>
         quotes (upserts cs ds ! i) = quotes (ds ! i)"
  using assms
proof (induction cs arbitrary: ds)
  case Nil
  then show ?case by simp
next
  case (Cons c cs)
  obtain now r where c: "c = (now, r)" by (cases c)
  have len: "i < length (upsert now r ds)"
    using Cons.prems length_upsert [of ds now r] by simp
  from Cons.IH [OF len] upsert_user_fields [OF Cons.prems, of now r] c
  show ?case by simp
qed

theorem user_fields_never_written_witness:
  "read (upserts [(7, rerum_la), (8, quod_it)] [annotated] ! 0) = True \<and>
   comments (upserts [(7, rerum_la), (8, quod_it)] [annotated] ! 0) = ''x'' \<and>
   quotes (upserts [(7, rerum_la), (8, quod_it)] [annotated] ! 0) = [''Rerum novarum semel'']"
  using user_fields_never_written [of 0 "[annotated]" "[(7, rerum_la), (8, quod_it)]"]
  by (simp add: annotated_def)

lemma update_existing_first_writer:
  "truthy (doc_type d) \<Longrightarrow> doc_type (update_existing u ty da la de d) = doc_type d"
  "truthy (date d) \<Longrightarrow> date (update_existing u ty da la de d) = date d"
  "truthy (description d) \<Longrightarrow>
     description (update_existing u ty da la de d) = description d"
  by (simp_all add: update_existing_def merge_description_def merge_language_def
      merge_date_def merge_type_def merge_url_def split: option.split)

lemma upsert_first_writer:
  assumes "i < length ds"
  shows "(truthy (doc_type (ds ! i)) \<longrightarrow> doc_type (upsert now r ds ! i) = doc_type (ds ! i)) \<and>
         (truthy (date (ds ! i)) \<longrightarrow> date (upsert now r ds ! i) = date (ds ! i)) \<and>
         (truthy (description (ds ! i)) \<longrightarrow>
            description (upsert now r ds ! i) = description (ds ! i))"
  using upsert_nth_cases [OF assms, of now r]
  by (auto simp: update_existing_first_writer)

text \<open>
  C2. First writer wins. Once \<^verbatim>\<open>type\<close>, \<^verbatim>\<open>date\<close> or
  \<^verbatim>\<open>description\<close> of a stored document is non-empty, no sequence of
  \<^verbatim>\<open>add_or_update_document\<close> calls changes it, whatever the candidates
  supply.
\<close>

theorem first_writer_wins:
  assumes "i < length ds"
  shows "(truthy (doc_type (ds ! i)) \<longrightarrow> doc_type (upserts cs ds ! i) = doc_type (ds ! i)) \<and>
         (truthy (date (ds ! i)) \<longrightarrow> date (upserts cs ds ! i) = date (ds ! i)) \<and>
         (truthy (description (ds ! i)) \<longrightarrow>
            description (upserts cs ds ! i) = description (ds ! i))"
  using assms
proof (induction cs arbitrary: ds)
  case Nil
  then show ?case by simp
next
  case (Cons c cs)
  obtain now r where c: "c = (now, r)" by (cases c)
  have len: "i < length (upsert now r ds)"
    using Cons.prems length_upsert [of ds now r] by simp
  have step: "upserts (c # cs) ds = upserts cs (upsert now r ds)"
    by (simp add: c)
  from Cons.IH [OF len] upsert_first_writer [OF Cons.prems, of now r]
  show ?case unfolding step by auto
qed

theorem first_writer_wins_witness:
  "truthy (doc_type ([annotated] ! 0)) \<and> truthy (date ([annotated] ! 0)) \<and>
   doc_type (upserts [(7, rerum_la), (8, quod_it)] [annotated] ! 0) = Some ''Encyclical'' \<and>
   date (upserts [(7, rerum_la), (8, quod_it)] [annotated] ! 0) = Some ''15 May 1891''"
  using first_writer_wins [of 0 "[annotated]" "[(7, rerum_la), (8, quod_it)]"]
  by (simp add: annotated_def new_doc_def truthy_def)

lemma new_doc_fields:
  "title (new_doc now t u ty da la de) = t"
  "url (new_doc now t u ty da la de) = u"
  "urls (new_doc now t u ty da la de) = None"
  by (simp_all add: new_doc_def)

lemma upsert_titles_distinct:
  assumes "distinct (map title ds)"
  shows "distinct (map title (upsert now r ds))"
proof (cases "document_exists (info_title r) (info_url r) ds")
  case None
  then have "info_title r \<notin> title ` set ds"
    by (auto simp: document_exists_None)
  with assms None show ?thesis
    by (simp add: upsert_def add_or_update_document_def new_doc_fields)
next
  case (Some i)
  have "map title (ds[i := update_existing (info_url r) (info_type r) (info_date r)
          (info_language r) (info_description r) (ds ! i)]) = map title ds"
    by (simp add: map_update update_existing_title flip: map_update [of title ds i "ds ! i"])
  with assms Some show ?thesis
    by (simp add: upsert_def add_or_update_document_def)
qed

lemma upserts_titles_distinct:
  "distinct (map title ds) \<Longrightarrow> distinct (map title (upserts cs ds))"
proof (induction cs arbitrary: ds)
  case Nil
  then show ?case by simp
next
  case (Cons c cs)
  obtain now r where c: "c = (now, r)" by (cases c)
  from Cons.IH [OF upsert_titles_distinct [OF Cons.prems, of now r]] c
  show ?case by simp
qed

text \<open>
  C3, as amended. After any sequence of \<^verbatim>\<open>add_or_update_document\<close> calls
  from the empty catalog, no two stored documents have the same title. (Primary
  urls are not unique: see \<open>two_documents_share_primary_url\<close>.)
\<close>

theorem stored_titles_distinct:
  "distinct (map title (upserts cs []))"
  using upserts_titles_distinct [of "[]" cs] by simp

theorem stored_titles_distinct_witness:
  "map title (upserts [(1, rerum_en), (2, quod_it), (3, rerum_it)] []) =
     [''Rerum Novarum'', ''Quod Multum''] \<and>
   distinct (map title (upserts [(1, rerum_en), (2, quod_it), (3, rerum_it)] []))"
  using stored_titles_distinct [of "[(1, rerum_en), (2, quod_it), (3, rerum_it)]"]
  by (simp add: upsert_def add_or_update_document_def update_existing_def
      merge_description_def merge_language_def merge_date_def merge_type_def
      merge_url_def known_urls_def known_languages_def truthy_def new_doc_def
      rerum_en_def quod_it_def rerum_it_def url_en_def url_it_def)

text \<open>
  C3 fails as stated: \<open>Rerum Novarum\<close> is stored at one url, \<open>Quod Multum\<close> at a
  second, and a third call brings the first title at the second url. The scan
  matches the first document by title (line 68), the url is new to it, and it is
  promoted (line 82): two stored documents now have the same primary url.
\<close>

theorem two_documents_share_primary_url:
  "map title (upserts [(1, rerum_en), (2, quod_it), (3, rerum_it)] []) =
     [''Rerum Novarum'', ''Quod Multum''] \<and>
   map url (upserts [(1, rerum_en), (2, quod_it), (3, rerum_it)] []) = [url_it, url_it]"
  by (simp add: upsert_def add_or_update_document_def update_existing_def
      merge_description_def merge_language_def merge_date_def merge_type_def
      merge_url_def known_urls_def known_languages_def truthy_def new_doc_def
      rerum_en_def quod_it_def rerum_it_def url_en_def url_it_def)

lemma update_existing_urls:
  "urls (update_existing u ty da la de d) = urls (merge_url u d)"
  "url (update_existing u ty da la de d) = url (merge_url u d)"
  by (simp_all add: update_existing_def merge_description_def merge_language_def
      merge_date_def merge_type_def split: option.split)

lemma known_urls_update_existing:
  "known_urls (update_existing u ty da la de d) = known_urls (merge_url u d)"
  by (simp add: known_urls_def update_existing_urls split: option.split)

text \<open>
  C4, as amended. When the call matches a stored document and the candidate's url
  is not among its known urls, the url is appended to \<^verbatim>\<open>urls\<close> and becomes
  the primary url, and every url known before is still recorded in
  \<^verbatim>\<open>urls\<close>. (\<^verbatim>\<open>document_exists\<close> never reads \<^verbatim>\<open>urls\<close>: see
  \<open>older_url_does_not_resolve\<close>.)
\<close>

theorem new_url_appended_and_promoted:
  assumes "document_exists t u ds = Some i"
    and "u \<notin> set (known_urls (ds ! i))"
  shows "snd (add_or_update_document now t u ty da la de ds) = i \<and>
         urls (fst (add_or_update_document now t u ty da la de ds) ! i) =
           Some (known_urls (ds ! i) @ [u]) \<and>
         url (fst (add_or_update_document now t u ty da la de ds) ! i) = u \<and>
         set (known_urls (ds ! i)) \<subseteq>
           set (known_urls (fst (add_or_update_document now t u ty da la de ds) ! i))"
proof -
  have i: "i < length ds"
    using document_exists_Some [OF assms(1)] by simp
  have "fst (add_or_update_document now t u ty da la de ds) ! i =
          update_existing u ty da la de (ds ! i)"
    using assms(1) i by (simp add: add_or_update_document_def)
  moreover have "merge_url u (ds ! i) =
      (ds ! i)\<lparr>urls := Some (known_urls (ds ! i) @ [u]), url := u\<rparr>"
    using assms(2) by (simp add: merge_url_def)
  ultimately show ?thesis
    using assms(1) by (auto simp: add_or_update_document_def update_existing_urls
        known_urls_update_existing known_urls_def)
qed

theorem new_url_appended_and_promoted_witness:
  "document_exists ''Rerum Novarum'' url_la [annotated] = Some 0 \<and>
   url_la \<notin> set (known_urls ([annotated] ! 0)) \<and>
   urls (fst (add_or_update_document 7 ''Rerum Novarum'' url_la ''Letter'' [] ''Latin'' []
           [annotated]) ! 0) = Some [url_en, url_la] \<and>
   url (fst (add_or_update_document 7 ''Rerum Novarum'' url_la ''Letter'' [] ''Latin'' []
           [annotated]) ! 0) = url_la"
proof -
  have m: "document_exists ''Rerum Novarum'' url_la [annotated] = Some 0"
    by (simp add: annotated_def new_doc_def)
  have n: "url_la \<notin> set (known_urls ([annotated] ! 0))"
    by (simp add: annotated_def new_doc_def known_urls_def url_la_def url_en_def)
  have k: "known_urls ([annotated] ! 0) = [url_en]"
    by (simp add: annotated_def new_doc_def known_urls_def)
  from new_url_appended_and_promoted [OF m n, of 7 "''Letter''" "[]" "''Latin''" "[]"] m n k
  show ?thesis by simp
qed

text \<open>
  C4 fails as stated: after the Latin url of \<open>Rerum Novarum\<close> has been promoted,
  the older English url is in \<^verbatim>\<open>urls\<close>, but \<^verbatim>\<open>document_exists\<close> with
  that url and a title no document has finds nothing (line 68 compares
  \<^verbatim>\<open>doc["url"]\<close> only).
\<close>

theorem older_url_does_not_resolve:
  "url_en \<in> set (known_urls (upserts [(1, rerum_en), (2, rerum_la)] [] ! 0)) \<and>
   url (upserts [(1, rerum_en), (2, rerum_la)] [] ! 0) = url_la \<and>
   document_exists (info_title other_en) url_en
     (upserts [(1, rerum_en), (2, rerum_la)] []) = None"
  by (simp add: upsert_def add_or_update_document_def update_existing_def
      merge_description_def merge_language_def merge_date_def merge_type_def
      merge_url_def known_urls_def known_languages_def truthy_def new_doc_def
      rerum_en_def rerum_la_def other_en_def url_en_def url_la_def)

lemma merge_url_primary_known:
  "url d \<in> set (known_urls d) \<Longrightarrow> url (merge_url u d) \<in> set (known_urls (merge_url u d))"
  by (simp add: merge_url_def known_urls_def)

lemma upsert_primary_known:
  assumes "\<forall>d \<in> set ds. url d \<in> set (known_urls d)"
  shows "\<forall>d \<in> set (upsert now r ds). url d \<in> set (known_urls d)"
proof (cases "document_exists (info_title r) (info_url r) ds")
  case None
  with assms show ?thesis
    by (simp add: upsert_def add_or_update_document_def new_doc_def known_urls_def)
next
  case (Some i)
  let ?d = "update_existing (info_url r) (info_type r) (info_date r) (info_language r)
              (info_description r) (ds ! i)"
  have "i < length ds"
    using document_exists_Some [OF Some] by simp
  with assms have "url (ds ! i) \<in> set (known_urls (ds ! i))"
    by simp
  then have "url ?d \<in> set (known_urls ?d)"
    by (simp add: update_existing_urls known_urls_update_existing merge_url_primary_known)
  moreover have "set (ds[i := ?d]) \<subseteq> insert ?d (set ds)"
    by (rule set_update_subset_insert)
  ultimately show ?thesis
    using assms Some by (auto simp: upsert_def add_or_update_document_def)
qed

text \<open>
  C5, as amended. \<^verbatim>\<open>add_or_update_document\<close> reads a document's urls as
  \<^verbatim>\<open>existing.get("urls", [existing["url"]])\<close>; read so, the urls of every
  stored document contain its primary url, at every point of every sequence of
  calls, provided they did at the start (as in the empty catalog). (The key
  \<^verbatim>\<open>"urls"\<close> itself is absent until the first new url is merged: see
  \<open>created_without_urls\<close>.)
\<close>

theorem primary_url_among_known_urls:
  assumes "\<forall>d \<in> set ds. url d \<in> set (known_urls d)"
  shows "\<forall>d \<in> set (upserts cs ds). url d \<in> set (known_urls d)"
  using assms
proof (induction cs arbitrary: ds)
  case Nil
  then show ?case by simp
next
  case (Cons c cs)
  obtain now r where c: "c = (now, r)" by (cases c)
  from Cons.IH [OF upsert_primary_known [OF Cons.prems, of now r]] c
  show ?case by simp
qed

theorem primary_url_among_known_urls_witness:
  "upserts [(1, rerum_en), (2, rerum_la)] [] ! 0 \<in> set (upserts [(1, rerum_en), (2, rerum_la)] []) \<and>
   urls (upserts [(1, rerum_en), (2, rerum_la)] [] ! 0) = Some [url_en, url_la] \<and>
   url (upserts [(1, rerum_en), (2, rerum_la)] [] ! 0)
     \<in> set (known_urls (upserts [(1, rerum_en), (2, rerum_la)] [] ! 0))"
proof -
  have e: "\<forall>d \<in> set ([] :: document list). url d \<in> set (known_urls d)"
    by simp
  have v: "upserts [(1, rerum_en), (2, rerum_la)] [] =
      [(new_doc 1 ''Rerum Novarum'' url_en ''Encyclical'' ''15 May 1891'' ''English'' [])
         \<lparr>urls := Some [url_en, url_la], url := url_la,
          languages := Some [''English'', ''Latin''],
          description := Some ''De conditione opificum''\<rparr>]"
    by (simp add: upsert_def add_or_update_document_def update_existing_def
        merge_description_def merge_language_def merge_date_def merge_type_def
        merge_url_def known_urls_def known_languages_def truthy_def new_doc_def
        rerum_en_def rerum_la_def url_en_def url_la_def)
  from primary_url_among_known_urls [OF e, of "[(1, rerum_en), (2, rerum_la)]"]
  show ?thesis unfolding v by simp
qed

text \<open>
  C5 fails as stated: the document just created has no key \<^verbatim>\<open>"urls"\<close>
  (lines 101-113 do not write it).
\<close>

theorem created_without_urls:
  "length (upsert 1 rerum_en []) = 1 \<and> urls (upsert 1 rerum_en [] ! 0) = None"
  by (simp add: upsert_def add_or_update_document_def new_doc_def)

section \<open>Properties of the extractor\<close>

text \<open>
  C7. For a fetched page whose first paragraph has the text \<open>text\<close>, let \<open>L\<close> be
  the length of the text with the surrounding whitespace stripped (line 246). The
  description is empty when \<open>L\<close> is at most 50, the stripped text when \<open>L\<close> is
  above 50 and at most 200, and the first 200 characters followed by \<open>...\<close> when
  \<open>L\<close> is above 200.
\<close>

theorem description_by_length:
  assumes "fetch_page e u = Some soup" and "select_one soup ''p'' = Some text"
  shows "\<exists>r. extract_document_info e u = Some r \<and>
     info_description r =
       (if length (str_strip text) \<le> 50 then []
        else if length (str_strip text) \<le> 200 then str_strip text
        else take 200 (str_strip text) @ ''...'')"
  using assms by (simp add: extract_document_info_def extract_description_def Let_def)

lemma isspace_examples: "\<not> isspace CHR ''a''" "isspace CHR '' ''"
  by (simp_all add: isspace_def)

theorem description_by_length_witness:
  "map_option info_description
     (extract_document_info
        (site (\<lambda>u. Some (paragraph_page ('' '' @ replicate 250 CHR ''a'' @ '' '')))) url_en) =
     Some (replicate 200 CHR ''a'' @ ''...'') \<and>
   map_option info_description
     (extract_document_info
        (site (\<lambda>u. Some (paragraph_page (replicate 30 CHR ''a'')))) url_en) = Some []"
  using description_by_length [of "site (\<lambda>u. Some (paragraph_page ('' '' @ replicate 250 CHR ''a'' @ '' '')))"
      url_en "paragraph_page ('' '' @ replicate 250 CHR ''a'' @ '' '')" "'' '' @ replicate 250 CHR ''a'' @ '' ''"]
    description_by_length [of "site (\<lambda>u. Some (paragraph_page (replicate 30 CHR ''a'')))"
      url_en "paragraph_page (replicate 30 CHR ''a'')" "replicate 30 CHR ''a''"]
  by (auto simp: site_def paragraph_page_def str_strip_def isspace_examples dropWhile_replicate)

lemma no_space_runs_Cons:
  "no_space_runs (x # ys) \<longleftrightarrow>
     ys = [] \<or> (\<not> (isspace x \<and> isspace (hd ys)) \<and> no_space_runs ys)"
  by (cases ys) simp_all

lemma sub_spaces_True_head:
  "sub_spaces True s = [] \<or> \<not> isspace (hd (sub_spaces True s))"
  by (induction s) simp_all

lemma no_space_runs_sub_spaces: "no_space_runs (sub_spaces b s)"
proof (induction s arbitrary: b)
  case Nil
  then show ?case by simp
next
  case (Cons c cs)
  from Cons [of True] Cons [of False] sub_spaces_True_head [of cs]
  show ?case by (auto simp: no_space_runs_Cons)
qed

lemma no_space_runs_tl: "no_space_runs (x # xs) \<Longrightarrow> no_space_runs xs"
  by (cases xs) simp_all

lemma no_space_runs_dropWhile: "no_space_runs xs \<Longrightarrow> no_space_runs (dropWhile P xs)"
  by (induction xs) (auto dest: no_space_runs_tl)

lemma no_space_runs_prefix: "no_space_runs (xs @ ys) \<Longrightarrow> no_space_runs xs"
proof (induction xs rule: no_space_runs.induct)
  case (1 a b cs)
  then show ?case by simp
qed simp_all

lemma strip_right_prefix:
  "xs = rev (dropWhile P (rev xs)) @ rev (takeWhile P (rev xs))"
  by (metis rev_append rev_rev_ident takeWhile_dropWhile_id)

lemma no_space_runs_strip: "no_space_runs s \<Longrightarrow> no_space_runs (str_strip s)"
proof -
  assume "no_space_runs s"
  then have "no_space_runs (dropWhile isspace s)"
    by (rule no_space_runs_dropWhile)
  then show ?thesis
    unfolding str_strip_def
    using strip_right_prefix [of "dropWhile isspace s" isspace] no_space_runs_prefix
    by metis
qed

lemma str_strip_ends:
  assumes "str_strip s \<noteq> []"
  shows "\<not> isspace (hd (str_strip s))" and "\<not> isspace (last (str_strip s))"
proof -
  let ?ys = "dropWhile isspace s"
  let ?pre = "rev (dropWhile isspace (rev ?ys))"
  have pre: "?pre \<noteq> []"
    using assms by (simp add: str_strip_def)
  then have ys: "?ys \<noteq> []"
    by (cases ?ys) simp_all
  have "hd ?ys = hd ?pre"
    using strip_right_prefix [of ?ys isspace] pre by (metis hd_append2)
  moreover have "\<not> isspace (hd ?ys)"
    using ys by (rule hd_dropWhile)
  ultimately show "\<not> isspace (hd (str_strip s))"
    by (simp add: str_strip_def)
  have "dropWhile isspace (rev ?ys) \<noteq> []"
    using pre by simp
  then have "\<not> isspace (hd (dropWhile isspace (rev ?ys)))"
    by (rule hd_dropWhile)
  then show "\<not> isspace (last (str_strip s))"
    using pre by (simp add: str_strip_def last_rev)
qed

lemma str_strip_empty: "str_strip s = [] \<longleftrightarrow> (\<forall>c \<in> set s. isspace c)"
proof
  assume e: "str_strip s = []"
  then have "\<forall>c \<in> set (dropWhile isspace s). isspace c"
    by (simp add: str_strip_def)
  then have "dropWhile isspace s = []"
    using hd_dropWhile [of isspace s] hd_in_set [of "dropWhile isspace s"] by blast
  then show "\<forall>c \<in> set s. isspace c"
    by simp
next
  assume "\<forall>c \<in> set s. isspace c"
  then have d: "dropWhile isspace s = []"
    by simp
  show "str_strip s = []"
    unfolding str_strip_def d by simp
qed

lemma isspace_space: "isspace CHR '' ''"
  by (simp add: isspace_def)

lemma sub_spaces_all_space:
  "(\<forall>c \<in> set (sub_spaces b s). isspace c) \<longleftrightarrow> (\<forall>c \<in> set s. isspace c)"
  by (induction s arbitrary: b) (auto simp: isspace_space)

lemma sub_spaces_only_spaces:
  "c \<in> set (sub_spaces b s) \<Longrightarrow> isspace c \<Longrightarrow> c = CHR '' ''"
  by (induction s arbitrary: b) (auto split: if_splits)

lemma set_str_strip: "set (str_strip s) \<subseteq> set s"
  unfolding str_strip_def by (auto dest!: set_dropWhileD)

lemma select_title_not_blank:
  "select_title soup sels \<noteq> [] \<Longrightarrow> \<exists>c \<in> set (select_title soup sels). \<not> isspace c"
proof (induction sels)
  case Nil
  then show ?case by simp
next
  case (Cons sel sels)
  show ?case
  proof (cases "select_one soup sel")
    case None
    with Cons show ?thesis by simp
  next
    case (Some tx)
    show ?thesis
    proof (cases "str_strip tx = []")
      case True
      with Some Cons show ?thesis by simp
    next
      case False
      then have "last (str_strip tx) \<in> set (str_strip tx)" "\<not> isspace (last (str_strip tx))"
        using str_strip_ends(2) [of tx] by simp_all
      with Some False show ?thesis by auto
    qed
  qed
qed

lemma extract_title_empty:
  "extract_title e u soup = [] \<longleftrightarrow>
     select_title soup title_selectors = [] \<and> (\<forall>c \<in> set (fallback_title e u). isspace c)"
  using select_title_not_blank [of soup title_selectors]
  by (auto simp: extract_title_def Let_def str_strip_empty re_sub_spaces_def sub_spaces_all_space)


lemma isspace_eval:
  "isspace CHR 0x0A" "\<not> isspace CHR ''R''" "\<not> isspace CHR ''e''" "\<not> isspace CHR ''r''"
  "\<not> isspace CHR ''u''" "\<not> isspace CHR ''m''" "\<not> isspace CHR ''N''" "\<not> isspace CHR ''o''"
  "\<not> isspace CHR ''v''"
  by (simp_all add: isspace_def)



section \<open>Properties of persistence and of the pipeline\<close>

lemma process_url_processed: "processed (process_url e u r) = Suc (processed r)"
  by (simp add: process_url_def Let_def split: option.split)

lemma process_url_saved:
  "length (saved (self (process_url e u r))) =
     length (saved (self r)) + (if Suc (processed r) mod 10 = 0 then 1 else 0)"
  by (simp add: process_url_def Let_def save_data_def merge_info_def split: option.split)

lemma scrape_loop_append:
  "scrape_loop e (us @ vs) r = scrape_loop e vs (scrape_loop e us r)"
  by (induction us arbitrary: r) simp_all

lemma scrape_loop_processed: "processed (scrape_loop e us r) = processed r + length us"
  by (induction us arbitrary: r) (simp_all add: process_url_processed)

lemma div_ten_step:
  "Suc p div 10 = p div 10 + (if Suc p mod 10 = 0 then 1 else 0)"
  by presburger

lemma scrape_loop_saved:
  "length (saved (self (scrape_loop e us r))) + processed r div 10 =
     length (saved (self r)) + (processed r + length us) div 10"
proof (induction us arbitrary: r)
  case Nil
  then show ?case by simp
next
  case (Cons u us)
  from Cons.IH [of "process_url e u r"]
  show ?case
    by (simp add: process_url_processed process_url_saved div_ten_step)
qed






subsection \<open>A second run of the pipeline\<close>

lemma merge_identities:
  "u \<in> set (known_urls d) \<Longrightarrow> merge_url u d = d"
  "(ty \<noteq> [] \<longrightarrow> truthy (doc_type d)) \<Longrightarrow> merge_type ty d = d"
  "(da \<noteq> [] \<longrightarrow> truthy (date d)) \<Longrightarrow> merge_date da d = d"
  "(la \<noteq> [] \<longrightarrow> la \<in> set (known_languages d)) \<Longrightarrow> merge_language la d = d"
  "(de \<noteq> [] \<longrightarrow> truthy (description d)) \<Longrightarrow> merge_description de d = d"
  by (auto simp: merge_url_def merge_type_def merge_date_def merge_language_def
      merge_description_def)

lemma absorbed_update_id:
  "absorbed r d \<Longrightarrow>
     update_existing (info_url r) (info_type r) (info_date r) (info_language r)
       (info_description r) d = d"
  by (simp add: absorbed_def update_existing_def merge_identities)

lemma merge_frames:
  "doc_type (merge_url u d) = doc_type d"
  "date (merge_url u d) = date d"
  "date (merge_type ty d) = date d"
  "languages (merge_url u d) = languages d"
  "languages (merge_type ty d) = languages d"
  "languages (merge_date da d) = languages d"
  "description (merge_url u d) = description d"
  "description (merge_type ty d) = description d"
  "description (merge_date da d) = description d"
  "description (merge_language la d) = description d"
  "doc_type (merge_date da d) = doc_type d"
  "doc_type (merge_language la d) = doc_type d"
  "doc_type (merge_description de d) = doc_type d"
  "date (merge_language la d) = date d"
  "date (merge_description de d) = date d"
  "languages (merge_description de d) = languages d"
  by (simp_all add: merge_url_def merge_type_def merge_date_def merge_language_def
      merge_description_def split: option.split)

lemma merge_results:
  "u \<in> set (known_urls (merge_url u d))"
  "ty \<noteq> [] \<Longrightarrow> truthy (doc_type (merge_type ty d))"
  "da \<noteq> [] \<Longrightarrow> truthy (date (merge_date da d))"
  "la \<noteq> [] \<Longrightarrow> la \<in> set (known_languages (merge_language la d))"
  "de \<noteq> [] \<Longrightarrow> truthy (description (merge_description de d))"
  by (auto simp: merge_url_def merge_type_def merge_date_def merge_language_def
      merge_description_def known_urls_def known_languages_def truthy_def
      split: option.split)

lemma known_urls_merge_url: "set (known_urls d) \<subseteq> set (known_urls (merge_url u d))"
  by (auto simp: merge_url_def known_urls_def)

lemma known_languages_merge_language:
  "set (known_languages d) \<subseteq> set (known_languages (merge_language la d))"
  by (auto simp: merge_language_def known_languages_def split: option.split)

lemma update_existing_fields:
  "doc_type (update_existing u ty da la de d) = doc_type (merge_type ty d)"
  "date (update_existing u ty da la de d) = date (merge_date da d)"
  "known_languages (update_existing u ty da la de d) = known_languages (merge_language la d)"
  "description (update_existing u ty da la de d) = description (merge_description de d)"
proof -
  show "doc_type (update_existing u ty da la de d) = doc_type (merge_type ty d)"
    by (simp add: update_existing_def merge_frames merge_type_def)
  show "date (update_existing u ty da la de d) = date (merge_date da d)"
    by (simp add: update_existing_def merge_frames merge_date_def)
  show "known_languages (update_existing u ty da la de d) = known_languages (merge_language la d)"
    by (simp add: update_existing_def known_languages_def merge_frames merge_language_def
        split: option.split)
  show "description (update_existing u ty da la de d) = description (merge_description de d)"
    by (simp add: update_existing_def merge_frames merge_description_def)
qed

lemma absorbed_mono:
  assumes "absorbed r d"
  shows "absorbed r (update_existing u ty da la de d)"
proof -
  have "info_url r \<in> set (known_urls (update_existing u ty da la de d))"
    using assms known_urls_merge_url [of d u]
    by (auto simp: absorbed_def known_urls_update_existing)
  moreover have "info_language r \<noteq> [] \<longrightarrow>
      info_language r \<in> set (known_languages (update_existing u ty da la de d))"
    using assms known_languages_merge_language [of d la]
    by (auto simp: absorbed_def update_existing_fields)
  ultimately show ?thesis
    using assms
    by (simp add: absorbed_def update_existing_title update_existing_first_writer)
qed

lemma absorbed_after_merge:
  assumes "title d = info_title r"
  shows "absorbed r (update_existing (info_url r) (info_type r) (info_date r)
           (info_language r) (info_description r) d)"
  using assms
  by (simp add: absorbed_def update_existing_title known_urls_update_existing
      update_existing_fields merge_results)

lemma absorbed_new_doc:
  "absorbed r (new_doc now (info_title r) (info_url r) (info_type r) (info_date r)
      (info_language r) (info_description r))"
  by (simp add: absorbed_def new_doc_def known_urls_def known_languages_def truthy_def)

lemma settled_empty: "settled {} []"
  by (simp add: settled_def)

lemma settled_upsert:
  assumes s: "settled R ds" and fresh: "info_url r \<notin> info_url ` R"
  shows "settled (insert r R) (upsert now r ds)"
proof (cases "document_exists (info_title r) (info_url r) ds")
  case None
  let ?n = "new_doc now (info_title r) (info_url r) (info_type r) (info_date r)
      (info_language r) (info_description r)"
  have up: "upsert now r ds = ds @ [?n]"
    using None by (simp add: upsert_def add_or_update_document_def)
  have "info_title r \<notin> title ` set ds"
    using None by (auto simp: document_exists_None)
  then have d: "distinct (map title (ds @ [?n]))"
    using s by (simp add: settled_def new_doc_fields)
  have t: "\<forall>d \<in> set (ds @ [?n]). \<exists>q \<in> insert r R. info_title q = title d \<and> info_url q = url d"
    using s by (auto simp: settled_def new_doc_fields)
  have a: "\<forall>q \<in> insert r R. \<exists>d \<in> set (ds @ [?n]). absorbed q d"
    using s absorbed_new_doc [of r now] by (auto simp: settled_def)
  show ?thesis
    unfolding up settled_def using d t a by blast
next
  case (Some i)
  let ?d = "update_existing (info_url r) (info_type r) (info_date r) (info_language r)
              (info_description r) (ds ! i)"
  have up: "upsert now r ds = ds[i := ?d]"
    using Some by (simp add: upsert_def add_or_update_document_def)
  have i: "i < length ds" and m: "title (ds ! i) = info_title r \<or> url (ds ! i) = info_url r"
    using document_exists_Some [OF Some] by simp_all
  have "ds ! i \<in> set ds"
    using i by simp
  then obtain q where q: "q \<in> R" "info_title q = title (ds ! i)" "info_url q = url (ds ! i)"
    using s by (auto simp: settled_def)
  have "url (ds ! i) \<noteq> info_url r"
    using fresh q by (metis imageI)
  with m have ti: "title (ds ! i) = info_title r"
    by simp
  have "map title (ds[i := ?d]) = map title ds"
    by (simp add: map_update update_existing_title flip: map_update [of title ds i "ds ! i"])
  then have d: "distinct (map title (ds[i := ?d]))"
    using s by (simp add: settled_def)
  have "url ?d = info_url r \<or> url ?d = url (ds ! i)"
    by (simp add: update_existing_urls merge_url_def)
  then have td: "\<exists>p \<in> insert r R. info_title p = title ?d \<and> info_url p = url ?d"
    using q ti by (auto simp: update_existing_title)
  have t: "\<forall>d \<in> set (ds[i := ?d]). \<exists>p \<in> insert r R. info_title p = title d \<and> info_url p = url d"
  proof
    fix d assume "d \<in> set (ds[i := ?d])"
    then have "d = ?d \<or> d \<in> set ds"
      using set_update_subset_insert [of ds i ?d] by auto
    then show "\<exists>p \<in> insert r R. info_title p = title d \<and> info_url p = url d"
      using td s by (auto simp: settled_def)
  qed
  have in_upd: "?d \<in> set (ds[i := ?d])"
    using i by (rule set_update_memI)
  have a: "\<forall>p \<in> insert r R. \<exists>d \<in> set (ds[i := ?d]). absorbed p d"
  proof
    fix p assume p: "p \<in> insert r R"
    show "\<exists>d \<in> set (ds[i := ?d]). absorbed p d"
    proof (cases "p = r")
      case True
      then show ?thesis
        using absorbed_after_merge [OF ti] in_upd by blast
    next
      case False
      with p s obtain d0 where d0: "d0 \<in> set ds" "absorbed p d0"
        by (auto simp: settled_def)
      then obtain j where j: "j < length ds" "ds ! j = d0"
        by (auto simp: in_set_conv_nth)
      show ?thesis
      proof (cases "j = i")
        case True
        then have "absorbed p ?d"
          using d0 j absorbed_mono by simp
        then show ?thesis
          using in_upd by blast
      next
        case False
        then have "ds[i := ?d] ! j = d0" "j < length (ds[i := ?d])"
          using j by simp_all
        then have "d0 \<in> set (ds[i := ?d])"
          by (metis nth_mem)
        then show ?thesis
          using d0 by blast
      qed
    qed
  qed
  show ?thesis
    unfolding up settled_def using d t a by blast
qed

lemma settled_upsert_id:
  assumes s: "settled R ds" and inj: "inj_on info_url R" and r: "r \<in> R"
  shows "upsert now r ds = ds"
proof -
  from s r obtain d0 where d0: "d0 \<in> set ds" "absorbed r d0"
    by (auto simp: settled_def)
  then have t0: "title d0 = info_title r"
    by (simp add: absorbed_def)
  with d0 have "document_exists (info_title r) (info_url r) ds \<noteq> None"
    by (auto simp: document_exists_None)
  then obtain i where e: "document_exists (info_title r) (info_url r) ds = Some i"
    by auto
  have i: "i < length ds" and m: "title (ds ! i) = info_title r \<or> url (ds ! i) = info_url r"
    using document_exists_Some [OF e] by simp_all
  have "ds ! i \<in> set ds"
    using i by simp
  then obtain q where q: "q \<in> R" "info_title q = title (ds ! i)" "info_url q = url (ds ! i)"
    using s by (auto simp: settled_def)
  have ti: "title (ds ! i) = info_title r"
  proof (cases "url (ds ! i) = info_url r")
    case True
    with q inj r have "q = r"
      by (auto dest: inj_onD)
    with q show ?thesis by simp
  next
    case False
    with m show ?thesis by simp
  qed
  obtain j where j: "j < length ds" "ds ! j = d0"
    using d0 by (auto simp: in_set_conv_nth)
  have dist: "distinct (map title ds)"
    using s by (simp add: settled_def)
  have "i = j"
    using nth_eq_iff_index_eq [OF dist, of i j] i j ti t0 by simp
  then have "absorbed r (ds ! i)"
    using j d0 by simp
  then show ?thesis
    using e by (simp add: upsert_def add_or_update_document_def absorbed_update_id)
qed

lemma extract_document_info_url:
  "extract_document_info e u = Some r \<Longrightarrow> info_url r = u"
  by (auto simp: extract_document_info_def split: option.splits)

lemma inj_on_extracted: "inj_on info_url (extracted e us)"
proof (rule inj_onI)
  fix x y
  assume "x \<in> extracted e us" and "y \<in> extracted e us" and eq: "info_url x = info_url y"
  then obtain ux uy where x: "extract_document_info e ux = Some x"
    and y: "extract_document_info e uy = Some y"
    by (auto simp: extracted_def)
  have "ux = uy"
    using extract_document_info_url [OF x] extract_document_info_url [OF y] eq by simp
  with x y show "x = y" by simp
qed

lemma extracted_Cons:
  "extracted e (u # us) =
     (case extract_document_info e u of None \<Rightarrow> {} | Some r \<Rightarrow> {r}) \<union> extracted e us"
  by (auto simp: extracted_def split: option.splits)

lemma save_data_catalog:
  "documents (self_documents (save_data s)) = documents (self_documents s)"
  "pope (metadata (self_documents (save_data s))) = pope (metadata (self_documents s))"
  "source (metadata (self_documents (save_data s))) = source (metadata (self_documents s))"
  "total_documents (metadata (self_documents (save_data s))) =
     length (documents (self_documents s))"
  "data_file (save_data s) = Present (Inr (Object (self_documents (save_data s))))"
  by (simp_all add: save_data_def Let_def)

lemma merge_info_catalog:
  "documents (self_documents (merge_info r s)) = upsert (clock s) r (documents (self_documents s))"
  "pope (metadata (self_documents (merge_info r s))) = pope (metadata (self_documents s))"
  "source (metadata (self_documents (merge_info r s))) = source (metadata (self_documents s))"
  by (simp_all add: merge_info_def)

lemma process_url_documents:
  "documents (self_documents (self (process_url e u r))) =
     (case extract_document_info e u of
        None \<Rightarrow> documents (self_documents (self r))
      | Some i \<Rightarrow> upsert (clock (self r)) i (documents (self_documents (self r))))"
  by (simp add: process_url_def Let_def save_data_catalog merge_info_catalog
      split: option.split)

lemma process_url_labels:
  "pope (metadata (self_documents (self (process_url e u r)))) =
     pope (metadata (self_documents (self r)))"
  "source (metadata (self_documents (self (process_url e u r)))) =
     source (metadata (self_documents (self r)))"
  by (simp_all add: process_url_def Let_def save_data_catalog merge_info_catalog
      split: option.split)

lemma scrape_loop_labels:
  "pope (metadata (self_documents (self (scrape_loop e us r)))) =
     pope (metadata (self_documents (self r))) \<and>
   source (metadata (self_documents (self (scrape_loop e us r)))) =
     source (metadata (self_documents (self r)))"
  by (induction us arbitrary: r) (simp_all add: process_url_labels)

lemma scrape_loop_settled:
  assumes "settled R (documents (self_documents (self r)))"
    and "distinct us" and "set us \<inter> info_url ` R = {}"
  shows "settled (R \<union> extracted e us) (documents (self_documents (self (scrape_loop e us r))))"
  using assms
proof (induction us arbitrary: R r)
  case Nil
  then show ?case by (simp add: extracted_def)
next
  case (Cons u us)
  show ?case
  proof (cases "extract_document_info e u")
    case None
    have st: "settled R (documents (self_documents (self (process_url e u r))))"
      using Cons.prems(1) None by (simp add: process_url_documents)
    have dj: "set us \<inter> info_url ` R = {}"
      using Cons.prems(3) by auto
    have di: "distinct us"
      using Cons.prems(2) by simp
    from Cons.IH [OF st di dj] have "settled (R \<union> extracted e us)
        (documents (self_documents (self (scrape_loop e us (process_url e u r)))))" .
    then show ?thesis
      using None by (simp add: extracted_Cons)
  next
    case (Some i)
    have iu: "info_url i = u"
      using Some by (rule extract_document_info_url)
    then have "info_url i \<notin> info_url ` R"
      using Cons.prems(3) by auto
    then have st: "settled (insert i R) (documents (self_documents (self (process_url e u r))))"
      using Cons.prems(1) Some by (simp add: process_url_documents settled_upsert)
    have dj: "set us \<inter> info_url ` insert i R = {}"
      using Cons.prems(2,3) iu by auto
    have di: "distinct us"
      using Cons.prems(2) by simp
    from Cons.IH [OF st di dj] have "settled (insert i R \<union> extracted e us)
        (documents (self_documents (self (scrape_loop e us (process_url e u r)))))" .
    then show ?thesis
      using Some by (simp add: extracted_Cons)
  qed
qed

lemma scrape_loop_unchanged:
  assumes "settled R (documents (self_documents (self r)))"
    and "inj_on info_url R" and "extracted e us \<subseteq> R"
  shows "documents (self_documents (self (scrape_loop e us r))) =
           documents (self_documents (self r))"
  using assms
proof (induction us arbitrary: r)
  case Nil
  then show ?case by simp
next
  case (Cons u us)
  have step: "documents (self_documents (self (process_url e u r))) =
      documents (self_documents (self r))"
  proof (cases "extract_document_info e u")
    case None
    then show ?thesis by (simp add: process_url_documents)
  next
    case (Some i)
    then have "i \<in> R"
      using Cons.prems(3) by (auto simp: extracted_Cons)
    then show ?thesis
      using Some Cons.prems(1,2) by (simp add: process_url_documents settled_upsert_id)
  qed
  have "extracted e us \<subseteq> R"
    using Cons.prems(3) by (auto simp: extracted_Cons)
  with Cons.IH [of "process_url e u r"] Cons.prems(1,2) step show ?case
    by simp
qed


lemma scrape_all_documents_result:
  "data_file (self (scrape_all_documents e us s)) =
     Present (Inr (Object (self_documents (self (scrape_all_documents e us s)))))"
  "documents (self_documents (self (scrape_all_documents e us s))) =
     documents (self_documents (self (scrape_loop e us
        \<lparr>self = s, processed = 0, new_docs = 0, updated_docs = 0\<rparr>)))"
  by (simp_all add: scrape_all_documents_def Let_def save_data_catalog)

lemma main_on_written_file:
  "main e us (Present (Inr (Object c))) now =
     Inr (scrape_all_documents e us
            \<lparr>data_file = Present (Inr (Object c)), self_documents = c, clock = now, saved = []\<rparr>)"
  by (simp add: main_def init_scraper_def load_existing_data_def)

lemma isspace_letters:
  "\<not> isspace CHR ''Q''" "\<not> isspace CHR ''u''" "\<not> isspace CHR ''o''" "\<not> isspace CHR ''d''"
  "\<not> isspace CHR ''M''" "\<not> isspace CHR ''l''" "\<not> isspace CHR ''t''" "\<not> isspace CHR ''m''"
  "\<not> isspace CHR ''L''" "\<not> isspace CHR ''e''" "\<not> isspace CHR ''r''" "\<not> isspace CHR ''a''"
  "\<not> isspace CHR ''R''" "\<not> isspace CHR ''N''" "\<not> isspace CHR ''v''" "isspace CHR '' ''"
  by (simp_all add: isspace_def)

lemma extract_old: "extract_document_info old_site url_it =
   Some \<lparr>info_title = ''Quod Multum'', info_url = url_it, info_type = ''Letter'',
         info_date = [], info_language = ''Italian'', info_description = []\<rparr>"
  by (simp add: extract_document_info_def old_site_def site_def titled_page_def
      extract_title_def title_selectors_def str_strip_def re_sub_spaces_def isspace_letters
      extract_doc_type_def extract_language_def extract_description_def url_it_def)

lemma extract_new:
  "extract_document_info new_site url_it =
   Some \<lparr>info_title = ''Lettera Quod Multum'', info_url = url_it, info_type = ''Letter'',
         info_date = [], info_language = ''Italian'', info_description = []\<rparr>"
  "extract_document_info new_site url_qm =
   Some \<lparr>info_title = ''Quod Multum'', info_url = url_qm, info_type = ''Letter'',
         info_date = [], info_language = ''Latin'', info_description = []\<rparr>"
  by (simp_all add: extract_document_info_def new_site_def site_def titled_page_def
      extract_title_def title_selectors_def str_strip_def re_sub_spaces_def isspace_letters
      extract_doc_type_def extract_language_def extract_description_def url_it_def url_qm_def)

lemma earlier_docs:
  "documents (self_documents (self earlier_run)) =
     [new_doc 0 ''Quod Multum'' url_it ''Letter'' [] ''Italian'' []]"
  by (simp add: earlier_run_def scrape_all_documents_result process_url_documents extract_old
      fresh_scraper_def default_catalog_def upsert_def add_or_update_document_def)


lemma urls_differ: "url_it \<noteq> url_qm" "url_qm \<noteq> url_it"
  by (simp_all add: url_it_def url_qm_def)

lemma first_docs:
  "documents (self_documents (self first_run)) =
     [(new_doc 0 ''Quod Multum'' url_it ''Letter'' [] ''Italian'' [])
        \<lparr>urls := Some [url_it, url_qm], url := url_qm,
         languages := Some [''Italian'', ''Latin'']\<rparr>]"
  by (simp add: first_run_def scrape_all_documents_result process_url_documents extract_new
      earlier_docs upsert_def add_or_update_document_def update_existing_def
      merge_url_def merge_type_def merge_date_def merge_language_def merge_description_def
      known_urls_def known_languages_def truthy_def new_doc_def urls_differ)

lemma second_docs:
  "documents (self_documents (self second_run)) =
     [(new_doc 0 ''Quod Multum'' url_it ''Letter'' [] ''Italian'' [])
        \<lparr>urls := Some [url_it, url_qm], url := url_qm,
         languages := Some [''Italian'', ''Latin'']\<rparr>,
      new_doc 20 ''Lettera Quod Multum'' url_it ''Letter'' [] ''Italian'' []]"
  by (simp add: second_run_def scrape_all_documents_result process_url_documents extract_new
      first_docs upsert_def add_or_update_document_def update_existing_def
      merge_url_def merge_type_def merge_date_def merge_language_def merge_description_def
      known_urls_def known_languages_def truthy_def new_doc_def urls_differ)


lemma leo_extract:
  "extract_document_info leo_site url_en =
     Some \<lparr>info_title = ''Rerum Novarum'', info_url = url_en, info_type = ''Encyclical'',
           info_date = [], info_language = ''English'', info_description = []\<rparr>"
  "extract_document_info leo_site url_la =
     Some \<lparr>info_title = ''Rerum Novarum'', info_url = url_la, info_type = ''Encyclical'',
           info_date = [], info_language = ''Latin'', info_description = []\<rparr>"
  "extract_document_info leo_site url_it =
     Some \<lparr>info_title = ''Quod Multum'', info_url = url_it, info_type = ''Letter'',
           info_date = [], info_language = ''Italian'', info_description = []\<rparr>"
  by (simp_all add: extract_document_info_def leo_site_def site_def titled_page_def
      extract_title_def title_selectors_def str_strip_def re_sub_spaces_def isspace_letters
      extract_doc_type_def extract_language_def extract_description_def
      url_en_def url_la_def url_it_def)

lemma leo_urls_differ:
  "url_en \<noteq> url_la" "url_en \<noteq> url_it" "url_la \<noteq> url_it"
  "url_la \<noteq> url_en" "url_it \<noteq> url_en" "url_it \<noteq> url_la"
  by (simp_all add: url_en_def url_la_def url_it_def)

lemma leo_first_titles:
  "map title (documents (self_documents (self leo_first))) = [''Rerum Novarum'', ''Quod Multum'']"
  by (simp add: leo_first_def scrape_all_documents_result process_url_documents leo_extract
      fresh_scraper_def default_catalog_def upsert_def add_or_update_document_def
      update_existing_def merge_url_def merge_type_def merge_date_def merge_language_def
      merge_description_def known_urls_def known_languages_def truthy_def new_doc_def
      leo_urls_differ)


end
